theory Spec2Isabelle
  imports Main "HOL-Library.Word"
begin

section \<open>Go values used by package pm\<close>

text \<open>
  The test doubles of \<^verbatim>\<open>pm/stub.go\<close> are embedded function by function. Every
  method takes the receiver's state and returns the new state next to its Go results,
  which keep the order of the Go signature.

  \<^item> A Go pointer \<^verbatim>\<open>*T\<close> is an \<open>option\<close>: \<open>None\<close> is \<^verbatim>\<open>nil\<close>, \<open>Some v\<close> points to
    the value \<open>v\<close> (a ticket is immutable, so a pointer is modelled by what it points to).
  \<^item> A Go slice is an \<open>option\<close> of a list: \<open>None\<close> is the \<^verbatim>\<open>nil\<close> slice, which
    differs from an empty slice only in the comparison with \<^verbatim>\<open>nil\<close>.
  \<^item> The Go \<^verbatim>\<open>error\<close> interface is \<open>error option\<close>: \<open>None\<close> is the \<^verbatim>\<open>nil\<close> error.
  \<^item> A Go map is a partial map; reading a missing key gives the zero value of the
    element type.
  \<^item> \<^verbatim>\<open>ethcommon.Address\<close> is \<^verbatim>\<open>[20]byte\<close> and \<^verbatim>\<open>ethcommon.Hash\<close> is \<^verbatim>\<open>[32]byte\<close>:
    words of 160 and 256 bits.
\<close>

type_synonym byte = "8 word"
type_synonym Address = "160 word"
type_synonym Hash = "256 word"
type_synonym 'a ptr = "'a option"
type_synonym 'a slice = "'a list option"

datatype error = Errorf string

datatype 'a outcome = Panic | Return 'a

definition slice_elems :: "'a slice \<Rightarrow> 'a list" where
  "slice_elems s = (case s of None \<Rightarrow> [] | Some xs \<Rightarrow> xs)"

definition slice_len :: "'a slice \<Rightarrow> nat" where
  "slice_len s = length (slice_elems s)"

text \<open>\<^verbatim>\<open>append(s, x)\<close>: the result is never the \<^verbatim>\<open>nil\<close> slice.\<close>

definition append_slice :: "'a slice \<Rightarrow> 'a \<Rightarrow> 'a slice" where
  "append_slice s x = Some (slice_elems s @ [x])"

text \<open>The index expression \<^verbatim>\<open>m[k]\<close> of a Go map, with the element type's zero value.\<close>

definition mapIndex :: "'v \<Rightarrow> ('k \<rightharpoonup> 'v) \<Rightarrow> 'k \<Rightarrow> 'v" where
  "mapIndex zero m k = (case m k of None \<Rightarrow> zero | Some v \<Rightarrow> v)"

section \<open>Tickets\<close>

text \<open>
  Modelled from the spec: the struct \<^verbatim>\<open>Ticket\<close> and its method \<^verbatim>\<open>Hash\<close> are declared
  in another file of package pm. The record has the fields of section 3 of the
  specification (a \<open>winProb\<close> is the numerator of a fraction of \<open>2 ^ 256\<close>). The
  identity digest \<^verbatim>\<open>ticket.Hash()\<close> is a parameter \<open>H\<close> of every function that calls
  it; being a digest of the fields, it reads them, so the call panics on a \<^verbatim>\<open>nil\<close>
  ticket.
\<close>

record Ticket =
  sender :: Address
  recipient :: Address
  faceValue :: int
  winProb :: int
  senderNonce :: nat
  recipientRandHash :: Hash
  creationContext :: nat

section \<open>stubTicketStore\<close>

text \<open>
  \<^verbatim>\<open>Store\<close> holds the write lock and \<^verbatim>\<open>Load\<close> the read lock for their whole body, so
  each call is one atomic step on the state; the lock itself is not part of the model.
\<close>

record stubTicketStore =
  tickets :: "string \<rightharpoonup> Ticket ptr slice"
  sigs :: "string \<rightharpoonup> byte slice slice"
  recipientRands :: "string \<rightharpoonup> int ptr slice"
  storeShouldFail :: bool
  loadShouldFail :: bool

definition newStubTicketStore :: stubTicketStore where
  "newStubTicketStore =
     \<lparr>tickets = Map.empty, sigs = Map.empty, recipientRands = Map.empty,
      storeShouldFail = False, loadShouldFail = False\<rparr>"

definition Store ::
  "stubTicketStore \<Rightarrow> string \<Rightarrow> Ticket ptr \<Rightarrow> byte slice \<Rightarrow> int ptr
     \<Rightarrow> error option \<times> stubTicketStore" where
  "Store ts sessionID ticket sig recipientRand =
     (if storeShouldFail ts then (Some (Errorf ''stub ticket store store error''), ts)
      else (None,
        ts\<lparr>tickets := (tickets ts)
              (sessionID \<mapsto> append_slice (mapIndex None (tickets ts) sessionID) ticket),
           sigs := (sigs ts)
              (sessionID \<mapsto> append_slice (mapIndex None (sigs ts) sessionID) sig),
           recipientRands := (recipientRands ts)
              (sessionID \<mapsto>
                 append_slice (mapIndex None (recipientRands ts) sessionID) recipientRand)\<rparr>))"

definition Load ::
  "stubTicketStore \<Rightarrow> string
     \<Rightarrow> Ticket ptr slice \<times> byte slice slice \<times> int ptr slice \<times> error option" where
  "Load ts sessionID =
     (if loadShouldFail ts then (None, None, None, Some (Errorf ''stub ticket store load error''))
      else (mapIndex None (tickets ts) sessionID, mapIndex None (sigs ts) sessionID,
            mapIndex None (recipientRands ts) sessionID, None))"

text \<open>
  A history of the store: the calls made on it, and the assignments to its two flags
  (plain fields, which the code of the package sets directly), each with what it
  returned.
\<close>

datatype call =
    CallStore string "Ticket ptr" "byte slice" "int ptr"
  | CallLoad string
  | AssignStoreShouldFail bool
  | AssignLoadShouldFail bool

datatype reply =
    StoreReply "error option"
  | LoadReply "Ticket ptr slice \<times> byte slice slice \<times> int ptr slice \<times> error option"
  | NoReply

fun step :: "call \<Rightarrow> stubTicketStore \<Rightarrow> reply \<times> stubTicketStore" where
  "step (CallStore sessionID ticket sig recipientRand) ts =
     (StoreReply (fst (Store ts sessionID ticket sig recipientRand)),
      snd (Store ts sessionID ticket sig recipientRand))"
| "step (CallLoad sessionID) ts = (LoadReply (Load ts sessionID), ts)"
| "step (AssignStoreShouldFail b) ts = (NoReply, ts\<lparr>storeShouldFail := b\<rparr>)"
| "step (AssignLoadShouldFail b) ts = (NoReply, ts\<lparr>loadShouldFail := b\<rparr>)"

fun run :: "call list \<Rightarrow> stubTicketStore \<Rightarrow> (call \<times> reply) list \<times> stubTicketStore" where
  "run [] ts = ([], ts)"
| "run (c # cs) ts =
     ((c, fst (step c ts)) # fst (run cs (snd (step c ts))), snd (run cs (snd (step c ts))))"

text \<open>The entries of a history that are a \<^verbatim>\<open>Store\<close> on a session that returned \<^verbatim>\<open>nil\<close>.\<close>

fun succeededStoreOn :: "string \<Rightarrow> call \<times> reply \<Rightarrow> bool" where
  "succeededStoreOn sessionID (CallStore k ticket sig recipientRand, StoreReply None) =
     (k = sessionID)"
| "succeededStoreOn sessionID other = False"

fun storedTicket :: "call \<times> reply \<Rightarrow> Ticket ptr" where
  "storedTicket (CallStore k ticket sig recipientRand, r) = ticket"
| "storedTicket other = None"

fun storedSig :: "call \<times> reply \<Rightarrow> byte slice" where
  "storedSig (CallStore k ticket sig recipientRand, r) = sig"
| "storedSig other = None"

fun storedRecipientRand :: "call \<times> reply \<Rightarrow> int ptr" where
  "storedRecipientRand (CallStore k ticket sig recipientRand, r) = recipientRand"
| "storedRecipientRand other = None"

text \<open>
  The slice obtained from \<^verbatim>\<open>nil\<close> by appending the elements of a list one by one:
  \<^verbatim>\<open>nil\<close> when there is nothing to append.
\<close>

definition sliceOf :: "'a list \<Rightarrow> 'a slice" where
  "sliceOf xs = (if xs = [] then None else Some xs)"

section \<open>stubSigVerifier\<close>

record stubSigVerifier =
  verifyResult :: bool

definition SetVerifyResult :: "stubSigVerifier \<Rightarrow> bool \<Rightarrow> stubSigVerifier" where
  "SetVerifyResult sv r = sv\<lparr>verifyResult := r\<rparr>"

definition Verify :: "stubSigVerifier \<Rightarrow> Address \<Rightarrow> byte slice \<Rightarrow> byte slice \<Rightarrow> bool" where
  "Verify sv addr msg sig = verifyResult sv"

section \<open>stubBroker\<close>

record stubBroker =
  deposits :: "Address \<rightharpoonup> int ptr"
  penaltyEscrows :: "Address \<rightharpoonup> int ptr"
  usedTickets :: "Hash \<rightharpoonup> bool"
  approvedSigners :: "Address \<rightharpoonup> bool"
  redeemShouldFail :: bool
  getDepositShouldFail :: bool
  getPenaltyEscrowShouldFail :: bool

definition newStubBroker :: stubBroker where
  "newStubBroker =
     \<lparr>deposits = Map.empty, penaltyEscrows = Map.empty, usedTickets = Map.empty,
      approvedSigners = Map.empty, redeemShouldFail = False,
      getDepositShouldFail = False, getPenaltyEscrowShouldFail = False\<rparr>"

definition RedeemWinningTicket ::
  "(Ticket \<Rightarrow> Hash) \<Rightarrow> stubBroker \<Rightarrow> Ticket ptr \<Rightarrow> byte slice \<Rightarrow> int ptr
     \<Rightarrow> (error option \<times> stubBroker) outcome" where
  "RedeemWinningTicket H b ticket sig recipientRand =
     (if redeemShouldFail b then Return (Some (Errorf ''stub broker redeem error''), b)
      else (case ticket of
              None \<Rightarrow> Panic
            | Some t \<Rightarrow> Return (None, b\<lparr>usedTickets := (usedTickets b)(H t \<mapsto> True)\<rparr>)))"

definition IsUsedTicket ::
  "(Ticket \<Rightarrow> Hash) \<Rightarrow> stubBroker \<Rightarrow> Ticket ptr \<Rightarrow> (bool \<times> error option) outcome" where
  "IsUsedTicket H b ticket =
     (case ticket of
        None \<Rightarrow> Panic
      | Some t \<Rightarrow> Return (mapIndex False (usedTickets b) (H t), None))"

definition SetDeposit :: "stubBroker \<Rightarrow> Address \<Rightarrow> int ptr \<Rightarrow> stubBroker" where
  "SetDeposit b addr amount = b\<lparr>deposits := (deposits b)(addr \<mapsto> amount)\<rparr>"

definition GetDeposit :: "stubBroker \<Rightarrow> Address \<Rightarrow> int ptr \<times> error option" where
  "GetDeposit b addr =
     (if getDepositShouldFail b then (None, Some (Errorf ''stub broker get deposit error''))
      else (mapIndex None (deposits b) addr, None))"

definition SetPenaltyEscrow :: "stubBroker \<Rightarrow> Address \<Rightarrow> int ptr \<Rightarrow> stubBroker" where
  "SetPenaltyEscrow b addr amount = b\<lparr>penaltyEscrows := (penaltyEscrows b)(addr \<mapsto> amount)\<rparr>"

definition GetPenaltyEscrow :: "stubBroker \<Rightarrow> Address \<Rightarrow> int ptr \<times> error option" where
  "GetPenaltyEscrow b addr =
     (if getPenaltyEscrowShouldFail b
      then (None, Some (Errorf ''stub broker get penalty escrow error''))
      else (mapIndex None (penaltyEscrows b) addr, None))"

section \<open>stubValidator\<close>

record stubValidator =
  isValidTicket :: bool
  isWinningTicket :: bool

definition SetIsValidTicket :: "stubValidator \<Rightarrow> bool \<Rightarrow> stubValidator" where
  "SetIsValidTicket v b = v\<lparr>isValidTicket := b\<rparr>"

definition SetIsWinningTicket :: "stubValidator \<Rightarrow> bool \<Rightarrow> stubValidator" where
  "SetIsWinningTicket v b = v\<lparr>isWinningTicket := b\<rparr>"

definition ValidateTicket ::
  "stubValidator \<Rightarrow> Ticket ptr \<Rightarrow> byte slice \<Rightarrow> int ptr \<Rightarrow> error option" where
  "ValidateTicket v ticket sig recipientRand =
     (if \<not> isValidTicket v then Some (Errorf ''stub validator invalid ticket error'')
      else None)"

definition IsWinningTicket ::
  "stubValidator \<Rightarrow> Ticket ptr \<Rightarrow> byte slice \<Rightarrow> int ptr \<Rightarrow> bool" where
  "IsWinningTicket v ticket sig recipientRand = isWinningTicket v"

section \<open>Sample inputs\<close>

text \<open>
  Modelled from the spec: no file of the sources computes the hash of \<open>recipientRand\<close>,
  the digest of the winning rule or the identity digest of a ticket, and the
  specification leaves the constructions open. The general results below hold for every
  such function; \<open>sampleRandHash\<close>, \<open>sampleDigest\<close> and \<open>sampleHash\<close> are stand-ins
  to evaluate the code at concrete inputs, and nothing is claimed about them.
\<close>

definition sampleRandHash :: "int \<Rightarrow> Hash" where
  "sampleRandHash r = word_of_int (r + 1)"

definition sampleDigest :: "Ticket \<Rightarrow> int \<Rightarrow> Hash" where
  "sampleDigest t r = word_of_int (int (senderNonce t) + r)"

definition sampleHash :: "Ticket \<Rightarrow> Hash" where
  "sampleHash t = word_of_int (int (senderNonce t))"

definition sampleTicket :: Ticket where
  "sampleTicket =
     \<lparr>sender = 1, recipient = 2, faceValue = 100, winProb = 100, senderNonce = 7,
      recipientRandHash = 0, creationContext = 3\<rparr>"

definition sampleCalls :: "call list" where
  "sampleCalls =
     [CallStore ''a'' (Some sampleTicket) (Some [1, 2]) (Some 5),
      CallStore ''b'' None None None,
      AssignStoreShouldFail True,
      CallStore ''a'' None (Some []) (Some 9),
      AssignStoreShouldFail False,
      CallLoad ''a'',
      CallStore ''a'' None (Some [3]) None]"

section \<open>The ticket store: what a history leaves under a session\<close>

lemma new_store_index:
  "mapIndex None (tickets newStubTicketStore) sid = None"
  "mapIndex None (sigs newStubTicketStore) sid = None"
  "mapIndex None (recipientRands newStubTicketStore) sid = None"
  by (simp_all add: newStubTicketStore_def mapIndex_def)

lemma step_tickets:
  "mapIndex None (tickets (snd (step c ts))) sid =
     (if succeededStoreOn sid (c, fst (step c ts))
      then Some (slice_elems (mapIndex None (tickets ts) sid) @ [storedTicket (c, fst (step c ts))])
      else mapIndex None (tickets ts) sid)"
  by (cases c) (auto simp: Store_def mapIndex_def append_slice_def)

lemma step_sigs:
  "mapIndex None (sigs (snd (step c ts))) sid =
     (if succeededStoreOn sid (c, fst (step c ts))
      then Some (slice_elems (mapIndex None (sigs ts) sid) @ [storedSig (c, fst (step c ts))])
      else mapIndex None (sigs ts) sid)"
  by (cases c) (auto simp: Store_def mapIndex_def append_slice_def)

lemma step_recipientRands:
  "mapIndex None (recipientRands (snd (step c ts))) sid =
     (if succeededStoreOn sid (c, fst (step c ts))
      then Some (slice_elems (mapIndex None (recipientRands ts) sid)
                 @ [storedRecipientRand (c, fst (step c ts))])
      else mapIndex None (recipientRands ts) sid)"
  by (cases c) (auto simp: Store_def mapIndex_def append_slice_def)

text \<open>
  From any state, a history leaves under a session what was there, followed by the
  arguments of the \<^verbatim>\<open>Store\<close> calls on that session that returned \<^verbatim>\<open>nil\<close>, in the order
  of the calls. The state is generalised, since every step changes it.
\<close>

lemma run_tickets:
  "mapIndex None (tickets (snd (run cs ts))) sid =
     (if filter (succeededStoreOn sid) (fst (run cs ts)) = []
      then mapIndex None (tickets ts) sid
      else Some (slice_elems (mapIndex None (tickets ts) sid)
                 @ map storedTicket (filter (succeededStoreOn sid) (fst (run cs ts)))))"
proof (induction cs arbitrary: ts)
  case Nil
  show ?case by simp
next
  case (Cons c cs)
  show ?case
    using Cons.IH [of "snd (step c ts)"]
    by (simp add: step_tickets slice_elems_def)
qed

lemma run_sigs:
  "mapIndex None (sigs (snd (run cs ts))) sid =
     (if filter (succeededStoreOn sid) (fst (run cs ts)) = []
      then mapIndex None (sigs ts) sid
      else Some (slice_elems (mapIndex None (sigs ts) sid)
                 @ map storedSig (filter (succeededStoreOn sid) (fst (run cs ts)))))"
proof (induction cs arbitrary: ts)
  case Nil
  show ?case by simp
next
  case (Cons c cs)
  show ?case
    using Cons.IH [of "snd (step c ts)"]
    by (simp add: step_sigs slice_elems_def)
qed

lemma run_recipientRands:
  "mapIndex None (recipientRands (snd (run cs ts))) sid =
     (if filter (succeededStoreOn sid) (fst (run cs ts)) = []
      then mapIndex None (recipientRands ts) sid
      else Some (slice_elems (mapIndex None (recipientRands ts) sid)
                 @ map storedRecipientRand (filter (succeededStoreOn sid) (fst (run cs ts)))))"
proof (induction cs arbitrary: ts)
  case Nil
  show ?case by simp
next
  case (Cons c cs)
  show ?case
    using Cons.IH [of "snd (step c ts)"]
    by (simp add: step_recipientRands slice_elems_def)
qed

text \<open>The history of \<open>sampleCalls\<close> on a new store, step by step.\<close>

lemma run_sampleCalls:
  "fst (run sampleCalls newStubTicketStore) =
     [(CallStore ''a'' (Some sampleTicket) (Some [1, 2]) (Some 5), StoreReply None),
      (CallStore ''b'' None None None, StoreReply None),
      (AssignStoreShouldFail True, NoReply),
      (CallStore ''a'' None (Some []) (Some 9),
         StoreReply (Some (Errorf ''stub ticket store store error''))),
      (AssignStoreShouldFail False, NoReply),
      (CallLoad ''a'', LoadReply (Some [Some sampleTicket], Some [Some [1, 2]], Some [Some 5], None)),
      (CallStore ''a'' None (Some [3]) None, StoreReply None)]"
  "loadShouldFail (snd (run sampleCalls newStubTicketStore)) = False"
  by (simp_all add: sampleCalls_def newStubTicketStore_def Store_def Load_def mapIndex_def
      append_slice_def slice_elems_def)

section \<open>Claims about the validator\<close>

text \<open>
  Whatever function \<open>h\<close> hashes \<open>recipientRand\<close>, some ticket commits to another value
  and passes \<^verbatim>\<open>ValidateTicket\<close>; whatever function \<open>d\<close> computes the digest, some ticket
  does not win by the rule of section 4.2 and \<^verbatim>\<open>IsWinningTicket\<close> returns true.
\<close>

lemma ValidateTicket_any_hash:
  "\<exists>t. h r \<noteq> recipientRandHash t \<and>
       ValidateTicket \<lparr>isValidTicket = True, isWinningTicket = w\<rparr> (Some t) sig (Some r) = None"
proof -
  let ?t = "sampleTicket\<lparr>recipientRandHash := h r + 1\<rparr>"
  have "h r \<noteq> recipientRandHash ?t" by simp
  moreover have "ValidateTicket \<lparr>isValidTicket = True, isWinningTicket = w\<rparr> (Some ?t) sig (Some r)
      = None"
    by (simp add: ValidateTicket_def)
  ultimately show ?thesis by blast
qed

lemma IsWinningTicket_any_digest:
  "\<exists>t. winProb t \<le> int (unat (d t r)) \<and>
       IsWinningTicket \<lparr>isValidTicket = ok, isWinningTicket = True\<rparr> (Some t) sig (Some r)"
proof -
  let ?t = "sampleTicket\<lparr>winProb := 0\<rparr>"
  have "winProb ?t \<le> int (unat (d ?t r))" by simp
  moreover have "IsWinningTicket \<lparr>isValidTicket = ok, isWinningTicket = True\<rparr> (Some ?t) sig (Some r)"
    by (simp add: IsWinningTicket_def)
  ultimately show ?thesis by blast
qed

text \<open>
  Claim C1, as stated: \<^verbatim>\<open>ValidateTicket\<close> returns a non-nil error whenever
  \<open>recipientRand\<close> does not hash to the ticket's \<open>recipientRandHash\<close>. It fails: with
  the flag \<open>isValidTicket\<close> set, a ticket whose commitment is 0 and a \<open>recipientRand\<close>
  of 5, which hashes to 6, the stub returns \<^verbatim>\<open>nil\<close>.
\<close>

theorem ValidateTicket_commitment_counterexample:
  "sampleRandHash 5 \<noteq> recipientRandHash sampleTicket \<and>
   ValidateTicket \<lparr>isValidTicket = True, isWinningTicket = False\<rparr>
     (Some sampleTicket) (Some [1, 2]) (Some 5) = None"
  by (simp add: sampleRandHash_def sampleTicket_def ValidateTicket_def)

text \<open>
  Claim C1, amended: \<^verbatim>\<open>ValidateTicket\<close> of the stub validator returns a non-nil error
  exactly when the validator's flag \<open>isValidTicket\<close> is false, the flag being what
  \<^verbatim>\<open>SetIsValidTicket\<close> last set; the result is the same for every ticket, signature and
  \<open>recipientRand\<close>, and does not depend on the flag \<open>isWinningTicket\<close>.
\<close>

theorem ValidateTicket_follows_flag:
  "(ValidateTicket v ticket sig recipientRand \<noteq> None) = (\<not> isValidTicket v) \<and>
   (ValidateTicket (SetIsValidTicket v ok) ticket sig recipientRand \<noteq> None) = (\<not> ok) \<and>
   ValidateTicket v ticket sig recipientRand = ValidateTicket v ticket' sig' recipientRand' \<and>
   ValidateTicket (SetIsWinningTicket v w) ticket sig recipientRand
     = ValidateTicket v ticket sig recipientRand"
  by (simp add: ValidateTicket_def SetIsValidTicket_def SetIsWinningTicket_def)

text \<open>
  Claim C2, as stated: \<^verbatim>\<open>IsWinningTicket\<close> returns false whenever the digest over the
  ticket and \<open>recipientRand\<close>, as an unsigned integer, is at least \<open>winProb\<close>. It
  fails: with the flag \<open>isWinningTicket\<close> set, a ticket of \<open>winProb\<close> 100 and a digest
  of 105, the stub returns true.
\<close>

theorem IsWinningTicket_digest_counterexample:
  "winProb sampleTicket \<le> int (unat (sampleDigest sampleTicket 98)) \<and>
   IsWinningTicket \<lparr>isValidTicket = True, isWinningTicket = True\<rparr>
     (Some sampleTicket) (Some [1, 2]) (Some 98) = True"
  by (simp add: sampleDigest_def sampleTicket_def IsWinningTicket_def)

text \<open>
  Claim C2, amended: \<^verbatim>\<open>IsWinningTicket\<close> of the stub validator returns the validator's
  flag \<open>isWinningTicket\<close>, the flag being what \<^verbatim>\<open>SetIsWinningTicket\<close> last set; the
  result is the same for every ticket, signature and \<open>recipientRand\<close>, so it is false
  for every input exactly when the flag is false.
\<close>

theorem IsWinningTicket_follows_flag:
  "IsWinningTicket v ticket sig recipientRand = isWinningTicket v \<and>
   IsWinningTicket (SetIsWinningTicket v w) ticket sig recipientRand = w \<and>
   IsWinningTicket v ticket sig recipientRand = IsWinningTicket v ticket' sig' recipientRand' \<and>
   IsWinningTicket (SetIsValidTicket v ok) ticket sig recipientRand
     = IsWinningTicket v ticket sig recipientRand"
  by (simp add: IsWinningTicket_def SetIsValidTicket_def SetIsWinningTicket_def)

section \<open>Claims about the broker\<close>

text \<open>
  Claim C3: after a call of \<^verbatim>\<open>RedeemWinningTicket\<close> on a ticket that returned \<^verbatim>\<open>nil\<close>,
  \<^verbatim>\<open>IsUsedTicket\<close> on the same ticket returns \<open>(true, nil)\<close>, whatever the identity
  digest \<open>H\<close> is.
\<close>

theorem RedeemWinningTicket_marks_used:
  assumes "RedeemWinningTicket H b ticket sig recipientRand = Return (None, b')"
  shows "IsUsedTicket H b' ticket = Return (True, None)"
proof (cases ticket)
  case None
  with assms show ?thesis
    by (simp add: RedeemWinningTicket_def split: if_splits)
next
  case (Some t)
  with assms have "b' = b\<lparr>usedTickets := (usedTickets b)(H t \<mapsto> True)\<rparr>"
    by (simp add: RedeemWinningTicket_def split: if_splits)
  with Some show ?thesis
    by (simp add: IsUsedTicket_def mapIndex_def)
qed

theorem RedeemWinningTicket_marks_used_witness:
  "RedeemWinningTicket sampleHash newStubBroker (Some sampleTicket) (Some [1, 2]) (Some 5)
     = Return (None, newStubBroker\<lparr>usedTickets := [7 \<mapsto> True]\<rparr>) \<and>
   IsUsedTicket sampleHash newStubBroker (Some sampleTicket) = Return (False, None) \<and>
   IsUsedTicket sampleHash (newStubBroker\<lparr>usedTickets := [7 \<mapsto> True]\<rparr>) (Some sampleTicket)
     = Return (True, None)"
proof -
  have h: "RedeemWinningTicket sampleHash newStubBroker (Some sampleTicket) (Some [1, 2]) (Some 5)
     = Return (None, newStubBroker\<lparr>usedTickets := [7 \<mapsto> True]\<rparr>)"
    by (simp add: RedeemWinningTicket_def newStubBroker_def sampleHash_def sampleTicket_def)
  have "IsUsedTicket sampleHash newStubBroker (Some sampleTicket) = Return (False, None)"
    by (simp add: IsUsedTicket_def newStubBroker_def mapIndex_def)
  with h RedeemWinningTicket_marks_used [OF h] show ?thesis by simp
qed

text \<open>
  Claim C6: when \<^verbatim>\<open>RedeemWinningTicket\<close> returns a non-nil error, the broker is
  unchanged, and \<^verbatim>\<open>IsUsedTicket\<close> gives for every ticket, the submitted one included,
  what it gave before the call.
\<close>

theorem RedeemWinningTicket_error_atomic:
  assumes "RedeemWinningTicket H b ticket sig recipientRand = Return (Some e, b')"
  shows "b' = b \<and> usedTickets b' = usedTickets b \<and> IsUsedTicket H b' t = IsUsedTicket H b t"
proof -
  from assms have "b' = b"
    by (simp add: RedeemWinningTicket_def split: if_splits option.splits)
  then show ?thesis by simp
qed

theorem RedeemWinningTicket_error_atomic_witness:
  "RedeemWinningTicket sampleHash (newStubBroker\<lparr>redeemShouldFail := True\<rparr>)
       (Some sampleTicket) (Some [1, 2]) (Some 5)
     = Return (Some (Errorf ''stub broker redeem error''),
               newStubBroker\<lparr>redeemShouldFail := True\<rparr>) \<and>
   IsUsedTicket sampleHash (newStubBroker\<lparr>redeemShouldFail := True\<rparr>) (Some sampleTicket)
     = Return (False, None)"
proof -
  have h: "RedeemWinningTicket sampleHash (newStubBroker\<lparr>redeemShouldFail := True\<rparr>)
       (Some sampleTicket) (Some [1, 2]) (Some 5)
     = Return (Some (Errorf ''stub broker redeem error''),
               newStubBroker\<lparr>redeemShouldFail := True\<rparr>)"
    by (simp add: RedeemWinningTicket_def newStubBroker_def)
  have "IsUsedTicket sampleHash (newStubBroker\<lparr>redeemShouldFail := True\<rparr>) (Some sampleTicket)
     = Return (False, None)"
    by (simp add: IsUsedTicket_def newStubBroker_def mapIndex_def)
  with h RedeemWinningTicket_error_atomic [OF h, of "Some sampleTicket"] show ?thesis by simp
qed

text \<open>
  Claim C7: after \<^verbatim>\<open>SetDeposit(addr, amount)\<close>, \<^verbatim>\<open>GetDeposit(addr)\<close> returns
  \<open>(amount, nil)\<close> when \<open>getDepositShouldFail\<close> is false, and a \<^verbatim>\<open>nil\<close> amount with a
  non-nil error when it is true; the same for \<^verbatim>\<open>SetPenaltyEscrow\<close> and
  \<^verbatim>\<open>GetPenaltyEscrow\<close> with \<open>getPenaltyEscrowShouldFail\<close>; and setting the balance of
  one address leaves both balances of every other address, and the other balance of the
  same address, as they were.
\<close>

theorem broker_balances_roundtrip:
  "(\<not> getDepositShouldFail b \<longrightarrow> GetDeposit (SetDeposit b addr amount) addr = (amount, None)) \<and>
   (getDepositShouldFail b \<longrightarrow>
      GetDeposit (SetDeposit b addr amount) addr
        = (None, Some (Errorf ''stub broker get deposit error''))) \<and>
   (\<not> getPenaltyEscrowShouldFail b \<longrightarrow>
      GetPenaltyEscrow (SetPenaltyEscrow b addr amount) addr = (amount, None)) \<and>
   (getPenaltyEscrowShouldFail b \<longrightarrow>
      GetPenaltyEscrow (SetPenaltyEscrow b addr amount) addr
        = (None, Some (Errorf ''stub broker get penalty escrow error''))) \<and>
   (other \<noteq> addr \<longrightarrow>
      GetDeposit (SetDeposit b addr amount) other = GetDeposit b other \<and>
      GetPenaltyEscrow (SetPenaltyEscrow b addr amount) other = GetPenaltyEscrow b other) \<and>
   GetPenaltyEscrow (SetDeposit b addr amount) any = GetPenaltyEscrow b any \<and>
   GetDeposit (SetPenaltyEscrow b addr amount) any = GetDeposit b any"
  by (simp add: GetDeposit_def SetDeposit_def GetPenaltyEscrow_def SetPenaltyEscrow_def
      mapIndex_def)

theorem broker_balances_roundtrip_witness:
  "GetDeposit (SetDeposit newStubBroker 1 (Some 1000)) 1 = (Some 1000, None) \<and>
   GetPenaltyEscrow (SetPenaltyEscrow newStubBroker 1 (Some 50)) 1 = (Some 50, None) \<and>
   GetDeposit (SetDeposit newStubBroker 1 (Some 1000)) 2 = (None, None) \<and>
   GetDeposit (SetDeposit (newStubBroker\<lparr>getDepositShouldFail := True\<rparr>) 1 (Some 1000)) 1
     = (None, Some (Errorf ''stub broker get deposit error'')) \<and>
   GetPenaltyEscrow
       (SetPenaltyEscrow (newStubBroker\<lparr>getPenaltyEscrowShouldFail := True\<rparr>) 1 (Some 50)) 1
     = (None, Some (Errorf ''stub broker get penalty escrow error''))"
proof -
  have ok: "\<not> getDepositShouldFail newStubBroker" "\<not> getPenaltyEscrowShouldFail newStubBroker"
    and bad: "getDepositShouldFail (newStubBroker\<lparr>getDepositShouldFail := True\<rparr>)"
      "getPenaltyEscrowShouldFail (newStubBroker\<lparr>getPenaltyEscrowShouldFail := True\<rparr>)"
    and ne: "(2::Address) \<noteq> 1"
    and old: "GetDeposit newStubBroker 2 = (None, None)"
    by (simp_all add: newStubBroker_def GetDeposit_def mapIndex_def)
  show ?thesis
    using ok bad ne old
      broker_balances_roundtrip [of newStubBroker 1 "Some 1000" 2]
      broker_balances_roundtrip [of newStubBroker 1 "Some 50" 2]
      broker_balances_roundtrip [of "newStubBroker\<lparr>getDepositShouldFail := True\<rparr>" 1 "Some 1000" 2]
      broker_balances_roundtrip
        [of "newStubBroker\<lparr>getPenaltyEscrowShouldFail := True\<rparr>" 1 "Some 50" 2]
    by simp
qed

section \<open>Claims about the signature verifier\<close>

text \<open>
  Claim C9: \<^verbatim>\<open>Verify\<close> returns the same boolean for any two triples of address,
  message and signature when the configured result is the same; the result is the value
  \<^verbatim>\<open>SetVerifyResult\<close> last set.
\<close>

theorem Verify_input_independent:
  "(verifyResult sv1 = verifyResult sv2 \<longrightarrow>
      Verify sv1 addr1 msg1 sig1 = Verify sv2 addr2 msg2 sig2) \<and>
   Verify (SetVerifyResult sv r) addr1 msg1 sig1 = r"
  by (simp add: Verify_def SetVerifyResult_def)

theorem Verify_input_independent_witness:
  "verifyResult \<lparr>verifyResult = True\<rparr> = verifyResult (SetVerifyResult \<lparr>verifyResult = False\<rparr> True) \<and>
   Verify \<lparr>verifyResult = True\<rparr> 1 (Some [1, 2]) None
     = Verify (SetVerifyResult \<lparr>verifyResult = False\<rparr> True) 2 None (Some [])"
proof -
  have h: "verifyResult \<lparr>verifyResult = True\<rparr>
      = verifyResult (SetVerifyResult \<lparr>verifyResult = False\<rparr> True)"
    by (simp add: SetVerifyResult_def)
  show ?thesis
    using h Verify_input_independent [of "\<lparr>verifyResult = True\<rparr>"
        "SetVerifyResult \<lparr>verifyResult = False\<rparr> True" 1 "Some [1, 2]" None 2 None "Some []"]
    by simp
qed

section \<open>Claims about the ticket store\<close>

text \<open>
  Claim C4: on a store made by \<^verbatim>\<open>newStubTicketStore\<close>, after any history of calls, a
  \<^verbatim>\<open>Load\<close> of a session that does not fail returns exactly the tickets, signatures
  and \<open>recipientRand\<close>s of the \<^verbatim>\<open>Store\<close> calls on that session that returned \<^verbatim>\<open>nil\<close>,
  in the order of the calls: nothing lost, nothing twice, nothing of another session.
\<close>

theorem Store_Load_roundtrip:
  assumes "\<not> loadShouldFail (snd (run cs newStubTicketStore))"
  shows "Load (snd (run cs newStubTicketStore)) sid =
     (sliceOf (map storedTicket
        (filter (succeededStoreOn sid) (fst (run cs newStubTicketStore)))),
      sliceOf (map storedSig
        (filter (succeededStoreOn sid) (fst (run cs newStubTicketStore)))),
      sliceOf (map storedRecipientRand
        (filter (succeededStoreOn sid) (fst (run cs newStubTicketStore)))),
      None)"
  using assms
  by (simp add: Load_def run_tickets run_sigs run_recipientRands new_store_index
      sliceOf_def slice_elems_def)

theorem Store_Load_roundtrip_witness:
  "\<not> loadShouldFail (snd (run sampleCalls newStubTicketStore)) \<and>
   Load (snd (run sampleCalls newStubTicketStore)) ''a'' =
     (Some [Some sampleTicket, None], Some [Some [1, 2], Some [3]], Some [Some 5, None], None) \<and>
   Load (snd (run sampleCalls newStubTicketStore)) ''b'' =
     (Some [None], Some [None], Some [None], None) \<and>
   Load (snd (run sampleCalls newStubTicketStore)) ''c'' = (None, None, None, None)"
proof -
  have h: "\<not> loadShouldFail (snd (run sampleCalls newStubTicketStore))"
    by (simp add: run_sampleCalls)
  show ?thesis
    using h Store_Load_roundtrip [OF h, of "''a''"] Store_Load_roundtrip [OF h, of "''b''"]
      Store_Load_roundtrip [OF h, of "''c''"]
    by (simp add: run_sampleCalls sliceOf_def)
qed

text \<open>
  Claim C5: \<^verbatim>\<open>Store\<close> returns a non-nil error exactly when \<open>storeShouldFail\<close> is true,
  and then the store is unchanged: \<^verbatim>\<open>Load\<close> of every session returns after the call
  what it returned before.
\<close>

theorem Store_error_atomic:
  "(fst (Store ts sid ticket sig recipientRand) \<noteq> None) = storeShouldFail ts \<and>
   (fst (Store ts sid ticket sig recipientRand) \<noteq> None \<longrightarrow>
      snd (Store ts sid ticket sig recipientRand) = ts \<and>
      (\<forall>k. Load (snd (Store ts sid ticket sig recipientRand)) k = Load ts k))"
  by (simp add: Store_def)

theorem Store_error_atomic_witness:
  "fst (Store (snd (run (take 3 sampleCalls) newStubTicketStore)) ''a'' None (Some []) (Some 9))
     \<noteq> None \<and>
   storeShouldFail (snd (run (take 3 sampleCalls) newStubTicketStore)) \<and>
   Load (snd (Store (snd (run (take 3 sampleCalls) newStubTicketStore))
                ''a'' None (Some []) (Some 9))) ''a''
     = (Some [Some sampleTicket], Some [Some [1, 2]], Some [Some 5], None)"
proof -
  let ?ts = "snd (run (take 3 sampleCalls) newStubTicketStore)"
  have h: "storeShouldFail ?ts"
    and l: "Load ?ts ''a'' = (Some [Some sampleTicket], Some [Some [1, 2]], Some [Some 5], None)"
    by (simp_all add: sampleCalls_def newStubTicketStore_def Store_def Load_def mapIndex_def
        append_slice_def slice_elems_def)
  show ?thesis
    using h l Store_error_atomic [of ?ts "''a''" None "Some []" "Some 9"]
    by simp
qed

text \<open>
  Claim C8: on a store made by \<^verbatim>\<open>newStubTicketStore\<close>, after any history of \<^verbatim>\<open>Store\<close>
  and \<^verbatim>\<open>Load\<close> calls, failed or not, the ticket list, the signature list and the
  \<open>recipientRand\<close> list of every session have the same length.
\<close>

theorem store_lists_same_length:
  "slice_len (mapIndex None (tickets (snd (run cs newStubTicketStore))) sid)
     = slice_len (mapIndex None (sigs (snd (run cs newStubTicketStore))) sid) \<and>
   slice_len (mapIndex None (sigs (snd (run cs newStubTicketStore))) sid)
     = slice_len (mapIndex None (recipientRands (snd (run cs newStubTicketStore))) sid)"
  by (simp add: run_tickets run_sigs run_recipientRands new_store_index
      slice_len_def slice_elems_def)

text \<open>
  Claim C10: on a store made by \<^verbatim>\<open>newStubTicketStore\<close>, when no \<^verbatim>\<open>Store\<close> call on a
  session has returned \<^verbatim>\<open>nil\<close> and \<open>loadShouldFail\<close> is false, \<^verbatim>\<open>Load\<close> of that session
  returns \<open>(nil, nil, nil, nil)\<close>.
\<close>

theorem Load_unknown_session:
  assumes "\<not> list_ex (succeededStoreOn sid) (fst (run cs newStubTicketStore))"
    and "\<not> loadShouldFail (snd (run cs newStubTicketStore))"
  shows "Load (snd (run cs newStubTicketStore)) sid = (None, None, None, None)"
proof -
  from assms(1) have "filter (succeededStoreOn sid) (fst (run cs newStubTicketStore)) = []"
    by (simp add: filter_empty_conv list_ex_iff)
  with assms(2) show ?thesis
    by (simp add: Load_def run_tickets run_sigs run_recipientRands new_store_index)
qed

theorem Load_unknown_session_witness:
  "\<not> list_ex (succeededStoreOn ''c'') (fst (run sampleCalls newStubTicketStore)) \<and>
   \<not> loadShouldFail (snd (run sampleCalls newStubTicketStore)) \<and>
   Load (snd (run sampleCalls newStubTicketStore)) ''c'' = (None, None, None, None)"
proof -
  have h1: "\<not> list_ex (succeededStoreOn ''c'') (fst (run sampleCalls newStubTicketStore))"
    and h2: "\<not> loadShouldFail (snd (run sampleCalls newStubTicketStore))"
    by (simp_all add: run_sampleCalls)
  show ?thesis
    using h1 h2 Load_unknown_session [OF h1 h2] by simp
qed

end
